theory Spec2Isabelle
  imports Main "HOL-Library.AList"
begin

section \<open>JavaScript values\<close>

text \<open>
  The values a keyword transform can return and the values literal nodes carry.
  \<open>JObj\<close> is a plain object (an object literal: its own properties in insertion
  order); \<open>JInstance\<close> stands for every other object (a class instance, a function,
  a Date, a RegExp), which \<open>_.isPlainObject\<close> rejects. Numbers are the integers and
  \<open>NaN\<close>; the code only reads numbers as line numbers, as argument positions and for
  their truthiness.
\<close>

datatype jsval =
    JUndefined
  | JNull
  | JBool bool
  | JNum int
  | JNaN
  | JStr string
  | JArr "jsval list"
  | JObj "(string \<times> jsval) list"
  | JInstance string

text \<open>\<open>Boolean(v)\<close>: false on undefined, null, false, 0, NaN and the empty string.\<close>

fun Boolean :: "jsval \<Rightarrow> bool" where
  "Boolean JUndefined = False"
| "Boolean JNull = False"
| "Boolean (JBool b) = b"
| "Boolean (JNum n) = (n \<noteq> 0)"
| "Boolean JNaN = False"
| "Boolean (JStr s) = (s \<noteq> [])"
| "Boolean (JArr xs) = True"
| "Boolean (JObj ps) = True"
| "Boolean (JInstance c) = True"

text \<open>\<open>_.isPlainObject(v)\<close>.\<close>

fun isPlainObject :: "jsval \<Rightarrow> bool" where
  "isPlainObject (JObj ps) = True"
| "isPlainObject v = False"

text \<open>What the code can throw: the parser's SyntaxError, a TypeError of the engine's own
  (a property read on undefined, a call of a value that is no function), and whatever a
  user-supplied transform throws.\<close>

datatype error = SyntaxError string | TypeError | Thrown jsval

section \<open>The syntax tree\<close>

text \<open>A source position \<open>{ line, column }\<close> as acorn reports it with \<open>locations: true\<close>.\<close>

record position =
  line :: int
  column :: int

text \<open>
  The ESTree nodes the engine looks into. \<open>CallExpression callee arguments start\<close>
  carries \<open>loc.start\<close>; \<open>MemberExpression object property computed\<close>;
  \<open>MetaProperty meta property\<close>; \<open>OtherNode type children\<close> is a node of any other
  type, which has none of the properties the engine reads.
\<close>

datatype node =
    Identifier string
  | Literal jsval
  | MemberExpression node node bool
  | MetaProperty node node
  | SequenceExpression "node list"
  | CallExpression node "node list" position
  | OtherNode string "node list"

text \<open>\<open>node.name\<close>, \<open>node.property\<close> and \<open>node.value\<close>; a property the node does not
  have reads as undefined (\<open>None\<close>, \<open>JUndefined\<close>).\<close>

fun name_of :: "node \<Rightarrow> string option" where
  "name_of (Identifier n) = Some n"
| "name_of other = None"

fun property_of :: "node \<Rightarrow> node option" where
  "property_of (MemberExpression obj prop computed) = Some prop"
| "property_of (MetaProperty meta prop) = Some prop"
| "property_of other = None"

fun value_of :: "node \<Rightarrow> jsval" where
  "value_of (Literal v) = v"
| "value_of other = JUndefined"

section \<open>Matches, transforms and the engine's options\<close>

text \<open>The match object built by the discoverer; \<open>comment\<close> is \<open>None\<close> while the
  property is not set.\<close>

record match =
  arguments :: "node list"
  keyword :: string
  line :: int
  comment :: "string option"

text \<open>
  A transform is a JavaScript function called with the match. It returns a value or
  throws, and, being user code, it may read and write state of its own (the variables
  its closure captures): \<open>'s\<close> is that state, threaded through every call. A
  transform is taken not to assign to the match object it is given, nor to the engine.
\<close>

type_synonym 's transform = "match \<Rightarrow> 's \<Rightarrow> (error + jsval) \<times> 's"

text \<open>A value of the \<open>keywords\<close> option: a number, a function, or anything else.\<close>

datatype 's keyword = KNumber int | KFunction "'s transform" | KOther jsval

text \<open>
  The function \<open>_normalizeKeyword\<close> returns for the number \<open>argnum\<close>. Reading
  \<open>.value\<close> of \<open>match.arguments[argumentPosition]\<close> throws a TypeError when that
  element is undefined, which happens for a negative position.
\<close>

definition argument_transform :: "int \<Rightarrow> 's transform" where
  "argument_transform argnum match s =
     (let argumentPosition = argnum - 1 in
      if int (length (arguments match)) > argumentPosition then
        (if argumentPosition < 0 then (Inl TypeError, s)
         else (case value_of (arguments match ! nat argumentPosition) of
                 JStr v \<Rightarrow> (Inr (JStr v), s)
               | other \<Rightarrow> (Inr JUndefined, s)))
      else (Inr JUndefined, s))"

fun normalizeKeyword :: "'s keyword \<Rightarrow> 's keyword" where
  "normalizeKeyword (KNumber argnum) = KFunction (argument_transform argnum)"
| "normalizeKeyword kw = kw"

text \<open>
  A keywords object is an association list of its own enumerable properties, in
  insertion order. The key \<open>__proto__\<close> is special in JavaScript: assigning it sets
  the object's prototype when the value is an object (a function is one) or null, does
  nothing for any other value, and never adds an own property; reading it gives the
  prototype. So an entry under \<open>__proto__\<close> in the list of a normalized object stands
  for a prototype installed that way: it is found by a lookup and is no own key.
  Assigning any other key adds an own property or replaces its value in place. (A key
  that a prototype installed under \<open>__proto__\<close> holds read-only, as a function holds
  \<open>name\<close> and \<open>length\<close>, would not be assignable after it; a keywords object is
  taken not to have \<open>__proto__\<close> followed by such a key.)
\<close>

fun is_object :: "'s keyword \<Rightarrow> bool" where
  "is_object (KNumber n) = False"
| "is_object (KFunction f) = True"
| "is_object (KOther (JArr xs)) = True"
| "is_object (KOther (JObj ps)) = True"
| "is_object (KOther (JInstance c)) = True"
| "is_object (KOther v) = False"

text \<open>\<open>object[ key ] = v\<close>.\<close>

definition assign :: "string \<Rightarrow> 's keyword \<Rightarrow> (string \<times> 's keyword) list \<Rightarrow> (string \<times> 's keyword) list" where
  "assign key v object =
     (if key = ''__proto__'' then
        (if is_object v then AList.update key v object
         else if v = KOther JNull then AList.delete key object
         else object)
      else AList.update key v object)"

text \<open>\<open>Object.keys( object )\<close>: the own keys.\<close>

definition Object_keys :: "(string \<times> 's keyword) list \<Rightarrow> string list" where
  "Object_keys object = filter (\<lambda>key. key \<noteq> ''__proto__'') (map fst object)"

definition normalizeKeywords :: "(string \<times> 's keyword) list \<Rightarrow> (string \<times> 's keyword) list" where
  "normalizeKeywords kws =
     fold (\<lambda>(fn, kw) normalizedKeywords. assign fn (normalizeKeyword kw) normalizedKeywords)
       kws []"

record 's options =
  "keywords" :: "(string \<times> 's keyword) list"
  commentPrefix :: "string option"
  keywordFunctions :: "string list"

text \<open>The engine instance (\<open>this\<close>).\<close>

record 's engine =
  options :: "'s options"

text \<open>The argument of the constructor: each key may be missing; \<open>commentPrefix\<close> may
  be given as \<open>undefined\<close> (\<open>Some None\<close>).\<close>

datatype 's user_options =
  Options (user_keywords: "(string \<times> 's keyword) list option")
          (user_commentPrefix: "string option option")

definition default_keywords :: "(string \<times> 's keyword) list" where
  "default_keywords = [(''_'', KNumber 1)]"

definition default_commentPrefix :: "string option" where
  "default_commentPrefix = Some ''translators:''"

definition XGettext :: "'s user_options \<Rightarrow> 's engine" where
  "XGettext opts =
     (let kws = normalizeKeywords
                  (case user_keywords opts of None \<Rightarrow> default_keywords | Some k \<Rightarrow> k);
          prefix = (case user_commentPrefix opts of None \<Rightarrow> default_commentPrefix | Some p \<Rightarrow> p)
      in \<lparr>options = \<lparr>keywords = kws, commentPrefix = prefix, keywordFunctions = Object_keys kws\<rparr>\<rparr>)"

section \<open>The external collaborators\<close>

text \<open>
  The arguments acorn passes to \<open>onComment\<close>, which the adapter binds to
  \<open>(block, text, start, end, line)\<close>: the fifth one is the comment's start position
  (an object \<open>{ line, column }\<close>), so the callback's parameter \<open>line\<close> holds a
  position. The offsets \<open>start\<close> and \<open>end\<close> are not read and are left out.
\<close>

record comment_call =
  block :: bool
  "text" :: string
  line :: position

text \<open>
  The parser, the tree walker and the regular expression engine are not part of the
  repository; the engine is verified for every one of them. \<open>parse\<close> is
  \<open>acorn.parse\<close> with \<open>locations: true\<close>: it throws, or returns the tree together with
  the calls of \<open>onComment\<close> it makes, in their order. \<open>simple\<close> is acorn's
  \<open>walk.simple\<close>: the nodes of a tree in the order in which the walker offers them to
  the visitors. \<open>RegExp pattern flags\<close> is \<open>new RegExp(pattern, flags)\<close>: it throws a
  SyntaxError when the pattern is no regular expression, or returns the regular
  expression, which gives for a subject its first match there: index and length.
\<close>

type_synonym regexp = "string \<Rightarrow> (nat \<times> nat) option"

record host =
  parse :: "string \<Rightarrow> error + comment_call list \<times> node"
  simple :: "node \<Rightarrow> node list"
  RegExp :: "string \<Rightarrow> string \<Rightarrow> error + regexp"

section \<open>The source parser adapter (\<open>_parseInput\<close>)\<close>

record translatorComment =
  "value" :: string
  line :: position

record parsedInput =
  comments :: "translatorComment list"
  ast :: node

text \<open>White space as \<open>String.prototype.trim\<close> and \<open>\s\<close> see it, among the characters
  below 256: tab, line feed, vertical tab, form feed, carriage return, space and the
  no-break space.\<close>

definition isWhiteSpace :: "char \<Rightarrow> bool" where
  "isWhiteSpace c = (c \<in> {CHR 0x09, CHR 0x0A, CHR 0x0B, CHR 0x0C, CHR 0x0D, CHR 0x20, CHR 0xA0})"

definition trim :: "string \<Rightarrow> string" where
  "trim s = rev (dropWhile isWhiteSpace (rev (dropWhile isWhiteSpace s)))"

text \<open>\<open>new RegExp( '^\\s*' + commentPrefix, 'i' )\<close>: the pattern is the four characters
  \<open>^\s*\<close> followed by the prefix.\<close>

definition rxCommentMatch :: "host \<Rightarrow> string \<Rightarrow> error + regexp" where
  "rxCommentMatch h prefix = RegExp h ([CHR 0x5E, CHR 0x5C, CHR 0x73, CHR 0x2A] @ prefix) ''i''"

text \<open>\<open>rx.test( text )\<close> and \<open>text.replace( rx, '' )\<close> for a regular expression without
  the global flag: the first match, if any, is cut out.\<close>

definition test :: "regexp \<Rightarrow> string \<Rightarrow> bool" where
  "test rx s = (rx s \<noteq> None)"

definition replace_empty :: "regexp \<Rightarrow> string \<Rightarrow> string" where
  "replace_empty rx s = (case rx s of None \<Rightarrow> s | Some (i, n) \<Rightarrow> take i s @ drop (i + n) s)"

text \<open>The callback \<open>parseOptions.onComment\<close>, a closure over the regular expression
  \<open>rxCommentMatch\<close>; the list is the local array \<open>comments\<close>.\<close>

definition onComment :: "regexp \<Rightarrow> comment_call \<Rightarrow> translatorComment list \<Rightarrow> translatorComment list" where
  "onComment rx c cs =
     (let isTranslatorComment = test rx (text c) in
      if isTranslatorComment
      then cs @ [\<lparr>value = trim (replace_empty rx (text c)),
                  translatorComment.line = comment_call.line c\<rparr>]
      else cs)"

text \<open>With a comment prefix the regular expression is built first, before the parser
  runs: a prefix that is no pattern makes \<open>new RegExp\<close> throw, whatever the input.\<close>

definition parseInput :: "host \<Rightarrow> 's engine \<Rightarrow> string \<Rightarrow> error + parsedInput" where
  "parseInput h this input =
     (case commentPrefix (options this) of
        None \<Rightarrow>
          (case parse h input of
             Inl e \<Rightarrow> Inl e
           | Inr (calls, tree) \<Rightarrow> Inr \<lparr>comments = [], ast = tree\<rparr>)
      | Some prefix \<Rightarrow>
          (case rxCommentMatch h prefix of
             Inl e \<Rightarrow> Inl e
           | Inr rx \<Rightarrow>
               (case parse h input of
                  Inl e \<Rightarrow> Inl e
                | Inr (calls, tree) \<Rightarrow>
                    Inr \<lparr>comments = fold (onComment rx) calls [], ast = tree\<rparr>)))"

section \<open>The call-site discoverer (\<open>_discoverMatches\<close>)\<close>

text \<open>The loop \<open>while ( 'SequenceExpression' === callee.type ) callee = _.last( callee.expressions )\<close>.
  \<open>_.last\<close> of an empty array is undefined, and reading \<open>.type\<close> of it throws.\<close>

function resolveCallee :: "node \<Rightarrow> error + node" where
  "resolveCallee (SequenceExpression expressions) =
     (if expressions = [] then Inl TypeError else resolveCallee (last expressions))"
| "resolveCallee (Identifier n) = Inr (Identifier n)"
| "resolveCallee (Literal v) = Inr (Literal v)"
| "resolveCallee (MemberExpression obj prop computed) = Inr (MemberExpression obj prop computed)"
| "resolveCallee (MetaProperty meta prop) = Inr (MetaProperty meta prop)"
| "resolveCallee (CallExpression callee args start) = Inr (CallExpression callee args start)"
| "resolveCallee (OtherNode ty children) = Inr (OtherNode ty children)"
  by pat_completeness auto
termination
proof (relation "measure size")
  show "wf (measure size)" by simp
next
  fix expressions :: "node list"
  assume "expressions \<noteq> []"
  then have "last expressions \<in> set expressions" by simp
  then have "size (last expressions) \<le> size_list size expressions"
    by (simp add: size_list_estimation')
  then show "(last expressions, SequenceExpression expressions) \<in> measure size" by simp
qed

text \<open>\<open>( callee.property ) ? callee.property.name : callee.name\<close>.\<close>

definition functionName :: "node \<Rightarrow> string option" where
  "functionName callee =
     (case property_of callee of Some prop \<Rightarrow> name_of prop | None \<Rightarrow> name_of callee)"

text \<open>The loop \<open>_.each( parsedInput.comments, ... )\<close> over the match under
  construction; \<open>startLine\<close> is \<open>node.loc.start.line\<close>.\<close>

definition findTranslatorComment :: "int \<Rightarrow> translatorComment list \<Rightarrow> match \<Rightarrow> match" where
  "findTranslatorComment startLine cs m =
     fold (\<lambda>translatorComment m'.
             if startLine = position.line (translatorComment.line translatorComment) \<or>
                startLine - 1 = position.line (translatorComment.line translatorComment)
             then m'\<lparr>comment := Some (value translatorComment)\<rparr>
             else m')
       cs m"

text \<open>The visitor registered for \<open>CallExpression\<close> nodes; the last argument is the array
  \<open>matches\<close>.\<close>

fun CallExpression_visitor :: "'s engine \<Rightarrow> parsedInput \<Rightarrow> node \<Rightarrow> match list \<Rightarrow> error + match list" where
  "CallExpression_visitor this parsed (CallExpression callee0 args start) matches =
     (case resolveCallee callee0 of
        Inl e \<Rightarrow> Inl e
      | Inr callee \<Rightarrow>
          (case functionName callee of
             None \<Rightarrow> Inr matches
           | Some fname \<Rightarrow>
               if fname = [] then Inr matches
               else if fname \<notin> set (keywordFunctions (options this)) then Inr matches
               else Inr (matches @
                      [findTranslatorComment (position.line start) (comments parsed)
                         \<lparr>arguments = args, keyword = fname, line = position.line start,
                          comment = None\<rparr>])))"
| "CallExpression_visitor this parsed other matches = Inr matches"

text \<open>\<open>traverse( ast, { CallExpression: visitor } )\<close>: the walker offers every node, and
  the visitor runs on those of type \<open>CallExpression\<close>; an exception ends the walk.\<close>

fun visit_nodes :: "(node \<Rightarrow> 'a \<Rightarrow> error + 'a) \<Rightarrow> node list \<Rightarrow> 'a \<Rightarrow> error + 'a" where
  "visit_nodes visitor [] st = Inr st"
| "visit_nodes visitor (n # ns) st =
     (case n of
        CallExpression callee args start \<Rightarrow>
          (case visitor n st of Inl e \<Rightarrow> Inl e | Inr st' \<Rightarrow> visit_nodes visitor ns st')
      | other \<Rightarrow> visit_nodes visitor ns st)"

definition traverse :: "host \<Rightarrow> node \<Rightarrow> (node \<Rightarrow> 'a \<Rightarrow> error + 'a) \<Rightarrow> 'a \<Rightarrow> error + 'a" where
  "traverse h tree visitor st = visit_nodes visitor (simple h tree) st"

definition discoverMatches :: "host \<Rightarrow> 's engine \<Rightarrow> parsedInput \<Rightarrow> error + match list" where
  "discoverMatches h this parsed =
     traverse h (ast parsed) (CallExpression_visitor this parsed) []"

section \<open>The match transformer (\<open>_transformMatch\<close>, \<open>getMatches\<close>)\<close>

text \<open>The record \<open>transformed\<close> built for one surviving string.\<close>

definition transformed :: "match \<Rightarrow> jsval \<Rightarrow> jsval" where
  "transformed m str =
     JObj ([(''string'', str), (''line'', JNum (match.line m))] @
           (case comment m of None \<Rightarrow> [] | Some c \<Rightarrow> [(''comment'', JStr c)]))"

text \<open>What \<open>_transformMatch\<close> does with the value \<open>strings\<close> the transform returned.\<close>

definition fromStrings :: "match \<Rightarrow> jsval \<Rightarrow> jsval" where
  "fromStrings m strings =
     (if isPlainObject strings then strings
      else JArr (map (transformed m)
                  (filter Boolean (case strings of JArr xs \<Rightarrow> xs | other \<Rightarrow> [strings]))))"

text \<open>Calling \<open>this.options.keywords[ match.keyword ]\<close> throws a TypeError when the value
  is no function. The engine looks up the keywords of discovered matches only, which
  are own keys of the object; for a name that is neither an own key nor \<open>__proto__\<close>
  the lookup is taken to find nothing.\<close>

definition transformMatch :: "'s engine \<Rightarrow> match \<Rightarrow> 's \<Rightarrow> (error + jsval) \<times> 's" where
  "transformMatch this m s =
     (case map_of (keywords (options this)) (keyword m) of
        Some (KFunction f) \<Rightarrow>
          (case f m s of
             (Inl e, s') \<Rightarrow> (Inl e, s')
           | (Inr strings, s') \<Rightarrow> (Inr (fromStrings m strings), s'))
      | other \<Rightarrow> (Inl TypeError, s))"

text \<open>\<open>_( matches ).map( ... )\<close>: the matches in order, each call seeing the state the
  previous one left; an exception ends the loop.\<close>

fun map_transformMatch :: "'s engine \<Rightarrow> match list \<Rightarrow> 's \<Rightarrow> (error + jsval list) \<times> 's" where
  "map_transformMatch this [] s = (Inr [], s)"
| "map_transformMatch this (m # ms) s =
     (case transformMatch this m s of
        (Inl e, s') \<Rightarrow> (Inl e, s')
      | (Inr r, s') \<Rightarrow>
          (case map_transformMatch this ms s' of
             (Inl e, s'') \<Rightarrow> (Inl e, s'')
           | (Inr rs, s'') \<Rightarrow> (Inr (r # rs), s'')))"

text \<open>\<open>_.flatten\<close> (lodash 4): one level; an array gives its elements, any other value
  stays as it is.\<close>

fun flatten :: "jsval list \<Rightarrow> jsval list" where
  "flatten [] = []"
| "flatten (JArr xs # rest) = xs @ flatten rest"
| "flatten (v # rest) = v # flatten rest"

definition getMatches :: "host \<Rightarrow> 's engine \<Rightarrow> string \<Rightarrow> 's \<Rightarrow> (error + jsval list) \<times> 's" where
  "getMatches h this input s =
     (case parseInput h this input of
        Inl e \<Rightarrow> (Inl e, s)
      | Inr parsed \<Rightarrow>
          (case discoverMatches h this parsed of
             Inl e \<Rightarrow> (Inl e, s)
           | Inr matches \<Rightarrow>
               (case map_transformMatch this matches s of
                  (Inl e, s') \<Rightarrow> (Inl e, s')
                | (Inr transformedMatches, s') \<Rightarrow> (Inr (flatten transformedMatches), s'))))"

section \<open>Vocabulary of the properties\<close>

text \<open>\<open>r[key]\<close> for a value \<open>r\<close>: undefined unless \<open>r\<close> is a plain object with that key.\<close>

fun get_property :: "jsval \<Rightarrow> string \<Rightarrow> jsval" where
  "get_property (JObj ps) k = (case map_of ps k of Some v \<Rightarrow> v | None \<Rightarrow> JUndefined)"
| "get_property v k = JUndefined"

text \<open>A callee wrapped in nested sequence expressions: \<open>wrap [b1, ..., bn] callee\<close> is
  \<open>(b1, (b2, ... (bn, callee)))\<close>, each \<open>bi\<close> the expressions before the last one.\<close>

fun wrap :: "node list list \<Rightarrow> node \<Rightarrow> node" where
  "wrap [] callee = callee"
| "wrap (before # inner) callee = SequenceExpression (before @ [wrap inner callee])"

text \<open>A collected comment qualifies for a call that starts on line \<open>startLine\<close> when it
  starts on that line or on the line before.\<close>

definition qualifying :: "int \<Rightarrow> translatorComment \<Rightarrow> bool" where
  "qualifying startLine c =
     (position.line (translatorComment.line c) = startLine \<or>
      position.line (translatorComment.line c) = startLine - 1)"

text \<open>A transform result that holds falsy values only: a falsy value, or an array of
  falsy values.\<close>

definition only_falsy :: "jsval \<Rightarrow> bool" where
  "only_falsy v = (case v of JArr xs \<Rightarrow> list_all (\<lambda>x. \<not> Boolean x) xs | other \<Rightarrow> \<not> Boolean v)"



text \<open>The value of a node that is a string literal, and the \<open>n\<close>th (1-based) argument
  of a call when it exists and is a string literal.\<close>

fun string_literal :: "node \<Rightarrow> string option" where
  "string_literal (Literal (JStr v)) = Some v"
| "string_literal other = None"

definition nth_string_literal :: "nat \<Rightarrow> node list \<Rightarrow> string option" where
  "nth_string_literal n args =
     (if 1 \<le> n \<and> n \<le> length args then string_literal (args ! (n - 1)) else None)"

text \<open>The entry \<open>onComment\<close> records for a comment that passes the prefix test: the
  prefix cut out, the rest trimmed, and the comment's start position.\<close>

definition collected :: "regexp \<Rightarrow> comment_call \<Rightarrow> translatorComment" where
  "collected rx c =
     \<lparr>value = trim (replace_empty rx (text c)),
      translatorComment.line = comment_call.line c\<rparr>"

text \<open>
  The name a callee stands for, in the words of the specification: the name of an
  identifier; the name of the accessed property of a property access (\<open>obj.fn\<close>, and
  likewise the meta property \<open>new.target\<close>); for a sequence expression, the name its
  last expression stands for; no name otherwise.
\<close>

function (sequential) callee_name :: "node \<Rightarrow> string option" where
  "callee_name (Identifier n) = Some n"
| "callee_name (MemberExpression obj (Identifier n) computed) = Some n"
| "callee_name (MetaProperty meta (Identifier n)) = Some n"
| "callee_name (SequenceExpression es) = (if es = [] then None else callee_name (last es))"
| "callee_name other = None"
  by pat_completeness auto
termination
proof (relation "measure size")
  show "wf (measure size)" by simp
next
  fix es :: "node list"
  assume "es \<noteq> []"
  then have "last es \<in> set es" by simp
  then have "size (last es) \<le> size_list size es"
    by (simp add: size_list_estimation')
  then show "(last es, SequenceExpression es) \<in> measure size" by simp
qed

text \<open>A tree as a parser builds it: no sequence expression is empty.\<close>

fun well_formed :: "node \<Rightarrow> bool" where
  "well_formed (SequenceExpression es) = (es \<noteq> [] \<and> list_all well_formed es)"
| "well_formed (MemberExpression obj property computed) = (well_formed obj \<and> well_formed property)"
| "well_formed (MetaProperty meta property) = (well_formed meta \<and> well_formed property)"
| "well_formed (CallExpression callee args start) = (well_formed callee \<and> list_all well_formed args)"
| "well_formed (OtherNode ty children) = list_all well_formed children"
| "well_formed other = True"

text \<open>A node is a call of one of the names.\<close>

fun keyword_call :: "string list \<Rightarrow> node \<Rightarrow> bool" where
  "keyword_call names (CallExpression callee args start) =
     (case callee_name callee of Some n \<Rightarrow> n \<in> set names | None \<Rightarrow> False)"
| "keyword_call names other = False"



section \<open>A host for the examples\<close>

text \<open>
  The closed examples below run the engine on a host that behaves as acorn and the
  JavaScript regular expressions do on the inputs used there. \<open>example_walk\<close> follows
  \<open>walk.simple\<close>: the children of a node first (callee, then arguments; the object of
  a member expression, and its property when computed), then the node itself.
\<close>

fun example_walk :: "node \<Rightarrow> node list" where
  "example_walk (Identifier n) = [Identifier n]"
| "example_walk (Literal v) = [Literal v]"
| "example_walk (MemberExpression obj prop computed) =
     example_walk obj @ (if computed then example_walk prop else []) @
     [MemberExpression obj prop computed]"
| "example_walk (MetaProperty meta prop) = [MetaProperty meta prop]"
| "example_walk (SequenceExpression es) =
     concat (map example_walk es) @ [SequenceExpression es]"
| "example_walk (CallExpression callee args start) =
     example_walk callee @ concat (map example_walk args) @ [CallExpression callee args start]"
| "example_walk (OtherNode ty children) =
     concat (map example_walk children) @ [OtherNode ty children]"

definition program :: "node list \<Rightarrow> node" where
  "program calls = OtherNode ''Program'' (map (\<lambda>c. OtherNode ''ExpressionStatement'' [c]) calls)"

text \<open>Three sources: the first one of the test suite, the same call with an empty
  literal, and a call between two translator comments on its line.\<close>

definition src_hello :: string where
  "src_hello = ''_( \"Hello World!\" );''"

definition src_empty :: string where
  "src_empty = ''_( \"\" );''"

definition src_two_comments :: string where
  "src_two_comments = ''/* translators: a */ _( \"x\" ); /* translators: b */''"

definition example_parse :: "string \<Rightarrow> error + comment_call list \<times> node" where
  "example_parse input =
     (if input = src_hello then
        Inr ([], program [CallExpression (Identifier ''_'') [Literal (JStr ''Hello World!'')]
                            \<lparr>position.line = 1, column = 0\<rparr>])
      else if input = src_empty then
        Inr ([], program [CallExpression (Identifier ''_'') [Literal (JStr [])]
                            \<lparr>position.line = 1, column = 0\<rparr>])
      else if input = src_two_comments then
        Inr ([\<lparr>block = True, text = '' translators: a '',
               comment_call.line = \<lparr>position.line = 1, column = 0\<rparr>\<rparr>,
              \<lparr>block = True, text = '' translators: b '',
               comment_call.line = \<lparr>position.line = 1, column = 31\<rparr>\<rparr>],
             program [CallExpression (Identifier ''_'') [Literal (JStr ''x'')]
                        \<lparr>position.line = 1, column = 21\<rparr>])
      else Inl (SyntaxError input))"

text \<open>The regular expressions of the examples: \<open>^\s*\<close> followed by letters, digits,
  colons and spaces, with the flag \<open>i\<close>. White space is skipped, then the literal is
  compared without regard to case. The examples use one more pattern, \<open>^\s*[\<close>,
  which is no regular expression (the character class is not closed): for it, and for
  every pattern this host does not know, it answers with a SyntaxError.\<close>

definition toLowerCase :: "char \<Rightarrow> char" where
  "toLowerCase c =
     (let n = (of_char c :: nat) in if 65 \<le> n \<and> n \<le> 90 then char_of (n + 32) else c)"

definition plain :: "char \<Rightarrow> bool" where
  "plain c =
     (let n = (of_char c :: nat)
      in (48 \<le> n \<and> n \<le> 58) \<or> (65 \<le> n \<and> n \<le> 90) \<or> (97 \<le> n \<and> n \<le> 122) \<or> n = 32)"

definition literal_prefix :: "string \<Rightarrow> regexp" where
  "literal_prefix literal subject =
     (let k = length (takeWhile isWhiteSpace subject);
          rest = drop k subject
      in if map toLowerCase (take (length literal) rest) = map toLowerCase literal
         then Some (0, k + length literal) else None)"

definition example_RegExp :: "string \<Rightarrow> string \<Rightarrow> error + regexp" where
  "example_RegExp pattern flags =
     (if take 4 pattern = [CHR 0x5E, CHR 0x5C, CHR 0x73, CHR 0x2A] \<and> flags = ''i'' \<and>
         list_all plain (drop 4 pattern)
      then Inr (literal_prefix (drop 4 pattern))
      else Inl (SyntaxError pattern))"

definition example_host :: host where
  "example_host = \<lparr>parse = example_parse, simple = example_walk, RegExp = example_RegExp\<rparr>"


section \<open>Auxiliary facts\<close>

lemma map_of_assign_other:
  "k \<noteq> key \<Longrightarrow> map_of (assign key v object) k = map_of object k"
  by (auto simp add: assign_def update_conv' delete_conv')

lemma map_of_assign_same:
  "is_object v \<or> key \<noteq> ''__proto__'' \<Longrightarrow> map_of (assign key v object) key = Some v"
  by (auto simp add: assign_def update_conv')

lemma fold_assign_untouched:
  "k \<notin> fst ` set kws \<Longrightarrow>
   map_of (fold (\<lambda>(fn, kw) acc. assign fn (g kw) acc) kws acc) k = map_of acc k"
proof (induction kws arbitrary: acc)
  case Nil
  then show ?case by simp
next
  case (Cons p kws)
  obtain a b where p: "p = (a, b)" by (cases p)
  from Cons.prems have "k \<noteq> a" "k \<notin> fst ` set kws" by (simp_all add: p)
  then show ?case
    using Cons.IH[of "assign a (g b) acc"] by (simp add: p map_of_assign_other)
qed

lemma fold_assign_lookup:
  assumes "distinct (map fst kws)" and "map_of kws k = Some kw"
    and "is_object (g kw) \<or> k \<noteq> ''__proto__''"
  shows "map_of (fold (\<lambda>(fn, kw) acc. assign fn (g kw) acc) kws acc) k = Some (g kw)"
  using assms
proof (induction kws arbitrary: acc)
  case Nil
  then show ?case by simp
next
  case (Cons p kws)
  obtain a b where p: "p = (a, b)" by (cases p)
  from Cons.prems(1) have d: "distinct (map fst kws)" and a: "a \<notin> fst ` set kws"
    by (simp_all add: p)
  show ?case
  proof (cases "k = a")
    case True
    with Cons.prems(2) have "b = kw" by (simp add: p)
    with True a Cons.prems(3) show ?thesis
      by (simp add: p fold_assign_untouched map_of_assign_same)
  next
    case False
    with Cons.prems(2) have "map_of kws k = Some kw" by (simp add: p)
    from Cons.IH[OF d this Cons.prems(3)] show ?thesis by (simp add: p)
  qed
qed

lemma keys_delete: "fst ` set (AList.delete key object) = fst ` set object - {key}"
proof -
  have "set (map fst (AList.delete key object)) = set (removeAll key (map fst object))"
    by (simp only: delete_keys)
  then show ?thesis by simp
qed

lemma assign_keys:
  "k \<noteq> ''__proto__'' \<Longrightarrow>
   (k \<in> fst ` set (assign key v object)) = (k = key \<or> k \<in> fst ` set object)"
  by (auto simp add: assign_def dom_update keys_delete)

lemma fold_assign_keys:
  "k \<noteq> ''__proto__'' \<Longrightarrow>
   (k \<in> fst ` set (fold (\<lambda>(fn, kw) acc. assign fn (g kw) acc) kws acc)) =
     (k \<in> fst ` set kws \<or> k \<in> fst ` set acc)"
proof (induction kws arbitrary: acc)
  case Nil
  then show ?case by simp
next
  case (Cons p kws)
  obtain a b where p: "p = (a, b)" by (cases p)
  show ?case
    using Cons.IH[OF Cons.prems, of "assign a (g b) acc"] assign_keys[OF Cons.prems, of a "g b" acc]
    by (auto simp add: p)
qed

lemma normalizeKeywords_lookup:
  "distinct (map fst kws) \<Longrightarrow> map_of kws k = Some kw \<Longrightarrow>
   is_object (normalizeKeyword kw) \<or> k \<noteq> ''__proto__'' \<Longrightarrow>
   map_of (normalizeKeywords kws) k = Some (normalizeKeyword kw)"
  by (simp add: normalizeKeywords_def fold_assign_lookup)

lemma normalizeKeywords_keys:
  "set (Object_keys (normalizeKeywords kws)) = fst ` set kws - {''__proto__''}"
  using fold_assign_keys[of _ normalizeKeyword kws "[]"]
  by (auto simp add: normalizeKeywords_def Object_keys_def)

lemma findTranslatorComment_last:
  "findTranslatorComment startLine cs m =
     (case filter (qualifying startLine) cs of
        [] \<Rightarrow> m
      | c # qs \<Rightarrow> m\<lparr>comment := Some (value (last (c # qs)))\<rparr>)"
proof (induction cs rule: rev_induct)
  case Nil
  then show ?case by (simp add: findTranslatorComment_def)
next
  case (snoc x xs)
  have step: "findTranslatorComment startLine (xs @ [x]) m =
      (if qualifying startLine x
       then (findTranslatorComment startLine xs m)\<lparr>comment := Some (value x)\<rparr>
       else findTranslatorComment startLine xs m)"
    by (auto simp add: findTranslatorComment_def qualifying_def)
  show ?case
    unfolding step snoc.IH
    by (simp split: list.splits)
qed

lemma visit_nodes_append:
  "visit_nodes v (xs @ ys) st =
     (case visit_nodes v xs st of Inl e \<Rightarrow> Inl e | Inr st' \<Rightarrow> visit_nodes v ys st')"
  by (induction xs arbitrary: st) (auto split: node.splits sum.splits)

lemma visit_nodes_skip:
  "(\<And>n st'. n \<in> set xs \<Longrightarrow> v n st' = Inr st') \<Longrightarrow> visit_nodes v xs st = Inr st"
  by (induction xs arbitrary: st) (auto split: node.splits sum.splits)

lemma map_transformMatch_append:
  "map_transformMatch this (xs @ ys) s =
     (case map_transformMatch this xs s of
        (Inl e, s') \<Rightarrow> (Inl e, s')
      | (Inr rs, s') \<Rightarrow>
          (case map_transformMatch this ys s' of
             (Inl e, s'') \<Rightarrow> (Inl e, s'')
           | (Inr rs', s'') \<Rightarrow> (Inr (rs @ rs'), s'')))"
  by (induction xs arbitrary: s) (auto split: prod.splits sum.splits)

lemma flatten_append: "flatten (xs @ ys) = flatten xs @ flatten ys"
  by (induction xs rule: flatten.induct) auto

lemma findTranslatorComment_fields:
  "arguments (findTranslatorComment startLine cs m) = arguments m"
  "keyword (findTranslatorComment startLine cs m) = keyword m"
  "match.line (findTranslatorComment startLine cs m) = match.line m"
  by (simp_all add: findTranslatorComment_last split: list.splits)

lemma visitor_registered:
  assumes "resolveCallee callee0 = Inr callee" and "functionName callee = Some fname"
    and "fname \<noteq> []" and "fname \<in> set (keywordFunctions (options this))"
  shows "CallExpression_visitor this parsed (CallExpression callee0 args start) matches =
           Inr (matches @
             [findTranslatorComment (position.line start) (comments parsed)
                \<lparr>arguments = args, keyword = fname, line = position.line start, comment = None\<rparr>])"
  using assms by simp

lemma XGettext_options:
  "keywords (options (XGettext (Options kwopt cp))) =
     normalizeKeywords (case kwopt of None \<Rightarrow> default_keywords | Some k \<Rightarrow> k)"
  "set (keywordFunctions (options (XGettext (Options kwopt cp)))) =
     fst ` set (case kwopt of None \<Rightarrow> default_keywords | Some k \<Rightarrow> k) - {''__proto__''}"
  "commentPrefix (options (XGettext (Options kwopt cp))) =
     (case cp of None \<Rightarrow> default_commentPrefix | Some p \<Rightarrow> p)"
  using normalizeKeywords_keys[of "(case kwopt of None \<Rightarrow> default_keywords | Some k \<Rightarrow> k)"]
  by (simp_all add: XGettext_def Let_def)

lemma transformed_properties:
  "get_property (transformed m str) ''string'' = str"
  "get_property (transformed m str) ''line'' = JNum (match.line m)"
  by (simp_all add: transformed_def split: option.splits)

lemma fromStrings_string:
  "fromStrings m (JStr str) = JArr (if str = [] then [] else [transformed m (JStr str)])"
  by (simp add: fromStrings_def)

lemma argument_transform_literal:
  assumes "1 \<le> N" and "nat N \<le> length (arguments m)"
    and "arguments m ! (nat N - 1) = Literal (JStr str)"
  shows "argument_transform N m s = (Inr (JStr str), s)"
proof -
  have "nat (N - 1) = nat N - 1" using assms(1) by simp
  moreover have "N - 1 < int (length (arguments m))" using assms(1,2) by linarith
  ultimately show ?thesis
    using assms by (simp add: argument_transform_def Let_def)
qed

lemmas run_defs =
  getMatches_def parseInput_def discoverMatches_def traverse_def transformMatch_def
  fromStrings_def transformed_def argument_transform_def functionName_def
  findTranslatorComment_def onComment_def test_def replace_empty_def rxCommentMatch_def
  trim_def isWhiteSpace_def XGettext_def normalizeKeywords_def assign_def Object_keys_def
  default_keywords_def default_commentPrefix_def

lemmas example_defs =
  example_host_def example_parse_def example_RegExp_def literal_prefix_def plain_def
  toLowerCase_def program_def src_hello_def src_empty_def src_two_comments_def

lemma value_of_string_literal:
  "value_of a = (case string_literal a of Some v \<Rightarrow> JStr v | None \<Rightarrow> value_of a)"
  "string_literal a = None \<Longrightarrow> value_of a \<noteq> JStr v"
  by (induction a rule: string_literal.induct) simp_all

lemma argument_transform_nth:
  assumes "1 \<le> N"
  shows "argument_transform N m s =
           (Inr (case nth_string_literal (nat N) (arguments m) of
                   Some v \<Rightarrow> JStr v | None \<Rightarrow> JUndefined), s)"
proof (cases "nat N \<le> length (arguments m)")
  case False
  then have "\<not> N - 1 < int (length (arguments m))" using assms by linarith
  with False show ?thesis
    by (simp add: argument_transform_def nth_string_literal_def)
next
  case True
  then have lt: "N - 1 < int (length (arguments m))" using assms by linarith
  have pos: "nat (N - 1) = nat N - 1" "\<not> N - 1 < 0" "Suc 0 \<le> nat N" using assms by simp_all
  show ?thesis
  proof (cases "string_literal (arguments m ! (nat N - 1))")
    case None
    then show ?thesis
      using True lt pos value_of_string_literal(2)[OF None]
      by (simp add: argument_transform_def nth_string_literal_def split: jsval.splits)
  next
    case (Some v)
    then have "value_of (arguments m ! (nat N - 1)) = JStr v"
      using value_of_string_literal(1)[of "arguments m ! (nat N - 1)"] by simp
    then show ?thesis
      using True lt pos Some
      by (simp add: argument_transform_def nth_string_literal_def)
  qed
qed

lemma fold_onComment:
  "fold (onComment rx) calls acc =
     acc @ map (collected rx) (filter (\<lambda>c. test rx (text c)) calls)"
  by (induction calls arbitrary: acc) (simp_all add: onComment_def collected_def)

lemma parseInput_comments:
  assumes "parseInput h this input = Inr parsed"
    and "parse h input = Inr (calls, tree)" and "commentPrefix (options this) = Some prefix"
  shows "\<exists>rx. rxCommentMatch h prefix = Inr rx \<and>
              parsed = \<lparr>comments = map (collected rx) (filter (\<lambda>c. test rx (text c)) calls),
                        ast = tree\<rparr>"
  using assms by (auto simp add: parseInput_def fold_onComment split: sum.splits)

lemma parseInput_ast:
  assumes "parse h input = Inr (calls, tree)"
    and "\<forall>prefix. commentPrefix (options this) = Some prefix \<longrightarrow>
           (\<exists>rx. rxCommentMatch h prefix = Inr rx)"
  shows "\<exists>parsed. parseInput h this input = Inr parsed \<and> ast parsed = tree"
  using assms by (auto simp add: parseInput_def split: option.splits sum.splits)

lemma visitor_result:
  assumes "CallExpression_visitor this parsed (CallExpression callee0 args start) ms = Inr (ms @ [m])"
  shows "\<exists>fname. m = findTranslatorComment (position.line start) (comments parsed)
            \<lparr>arguments = args, keyword = fname, line = position.line start, comment = None\<rparr> \<and>
          fname \<in> set (keywordFunctions (options this)) \<and> fname \<noteq> [] \<and>
          (\<exists>callee. resolveCallee callee0 = Inr callee \<and> functionName callee = Some fname)"
  using assms by (auto split: sum.splits option.splits if_splits)

lemma comment_findTranslatorComment:
  "comment (findTranslatorComment startLine cs
      \<lparr>arguments = args, keyword = fname, line = l, comment = None\<rparr>) =
     (case filter (qualifying startLine) cs of
        [] \<Rightarrow> None
      | c # qs \<Rightarrow> Some (value (last (c # qs))))"
  by (simp add: findTranslatorComment_last split: list.splits)

lemma resolveCallee_wrap: "resolveCallee (wrap bs callee) = resolveCallee callee"
  by (induction bs) simp_all

lemma transformMatch_returns:
  assumes "map_of (keywords (options this)) (keyword m) = Some (KFunction f)"
    and "f m s = (Inr v, s')"
  shows "transformMatch this m s = (Inr (fromStrings m v), s')"
  using assms by (simp add: transformMatch_def)

lemma getMatches_around:
  assumes parsed: "parseInput h this input = Inr parsed"
    and discovered: "discoverMatches h this parsed = Inr (ms1 @ [m] @ ms2)"
    and before: "map_transformMatch this ms1 s = (Inr r1, s1)"
    and at: "transformMatch this m s1 = (Inr r, s2)"
    and after: "map_transformMatch this ms2 s2 = (Inr r2, s3)"
  shows "getMatches h this input s = (Inr (flatten r1 @ flatten [r] @ flatten r2), s3)"
proof -
  have "map_transformMatch this (ms1 @ [m] @ ms2) s = (Inr (r1 @ [r] @ r2), s3)"
    by (simp add: map_transformMatch_append before at after)
  moreover have "flatten (r1 @ [r] @ r2) = flatten r1 @ flatten [r] @ flatten r2"
    by (simp only: flatten_append)
  ultimately show ?thesis
    by (simp add: getMatches_def parsed discovered)
qed

lemma transformed_truthy:
  "r \<in> set (map (transformed m) (filter Boolean xs)) \<Longrightarrow> Boolean (get_property r ''string'')"
  by (auto simp add: transformed_properties)

lemma only_falsy_filter:
  "only_falsy v \<Longrightarrow> filter Boolean (case v of JArr xs \<Rightarrow> xs | other \<Rightarrow> [v]) = []"
  by (cases v) (simp_all add: only_falsy_def list_all_iff)




lemma well_formed_last:
  "well_formed (SequenceExpression es) \<Longrightarrow> well_formed (last es)"
  by (simp add: list_all_iff)

lemma resolveCallee_wrap_plain:
  "\<forall>es. callee \<noteq> SequenceExpression es \<Longrightarrow> resolveCallee (wrap bs callee) = Inr callee"
  by (cases callee) (simp_all add: resolveCallee_wrap)

lemma resolve_callee_name:
  "well_formed callee \<Longrightarrow>
   \<exists>c. resolveCallee callee = Inr c \<and> functionName c = callee_name callee"
proof (induction callee rule: resolveCallee.induct)
  case (1 expressions)
  then show ?case using well_formed_last[OF "1.prems"] by simp
next
  case (4 obj p computed)
  show ?case by (cases p) (simp_all add: functionName_def)
next
  case (5 meta p)
  show ?case by (cases p) (simp_all add: functionName_def)
qed (simp_all add: functionName_def)

lemma visitor_keyword:
  assumes "well_formed callee0" and "callee_name callee0 = Some fname"
    and "fname \<noteq> []" and "fname \<in> set (keywordFunctions (options this))"
  shows "CallExpression_visitor this parsed (CallExpression callee0 args start) matches =
           Inr (matches @
             [\<lparr>arguments = args, keyword = fname, line = position.line start,
               comment = (case filter (qualifying (position.line start)) (comments parsed) of
                            [] \<Rightarrow> None
                          | c # qs \<Rightarrow> Some (value (last (c # qs))))\<rparr>])"
proof -
  from resolve_callee_name[OF assms(1)] assms(2) obtain c where
    c: "resolveCallee callee0 = Inr c" "functionName c = Some fname" by auto
  show ?thesis
    unfolding visitor_registered[OF c assms(3,4)] findTranslatorComment_last
    by (simp split: list.splits)
qed

lemma visitor_other:
  assumes "well_formed n" and "\<not> keyword_call names n"
    and "set (keywordFunctions (options this)) \<subseteq> set names"
  shows "CallExpression_visitor this parsed n matches = Inr matches"
proof (cases n)
  case (CallExpression callee args start)
  with assms(1) have "well_formed callee" by simp
  from resolve_callee_name[OF this] obtain c where
    c: "resolveCallee callee = Inr c" "functionName c = callee_name callee" by auto
  show ?thesis
    using assms(2,3) c CallExpression by (auto split: option.splits)
qed simp_all

section \<open>C1: one keyword call with a string literal gives one record\<close>

text \<open>
  C1, as stated: for every source text containing exactly one call to a registered
  single-argument string keyword whose argument is a string literal, \<open>getMatches\<close>
  returns exactly one record whose \<open>string\<close> is the literal's value and whose
  \<open>line\<close> is the call's line. This fails for the empty literal: the source
  \<open>_( "" );\<close> holds exactly one such call, and the engine with the default options
  returns the empty list, because \<open>_transformMatch\<close> filters falsy strings out.
\<close>

theorem C1_empty_literal_counterexample:
  "parse example_host src_empty =
     Inr ([], program [CallExpression (Identifier ''_'') [Literal (JStr [])]
                         \<lparr>position.line = 1, column = 0\<rparr>]) \<and>
   getMatches example_host (XGettext (Options None None)) src_empty () = (Inr [], ())"
  by (simp add: run_defs example_defs)

text \<open>
  Two more conditions the claim leaves out. The comment prefix is compiled into a
  regular expression before the source is parsed, so with a prefix that is no pattern,
  such as \<open>[\<close>, every invocation throws. And a keywords object with the key
  \<open>__proto__\<close> does not register that name: the assignment replaces the prototype of
  the normalized object, \<open>Object.keys\<close> does not list it, and a call of \<open>__proto__\<close>
  is not matched.
\<close>

lemma invalid_prefix_throws:
  "getMatches example_host (XGettext (Options None (Some (Some ''['')))) src_hello () =
     (Inl (SyntaxError [CHR 0x5E, CHR 0x5C, CHR 0x73, CHR 0x2A, CHR 0x5B]), ())"
  by (simp add: run_defs example_defs)

lemma proto_key_not_registered:
  "keywordFunctions (options (XGettext (Options (Some [(''__proto__'', KNumber 1)]) None))) = [] \<and>
   CallExpression_visitor (XGettext (Options (Some [(''__proto__'', KNumber 1)]) None))
     \<lparr>comments = [], ast = OtherNode ''Program'' []\<rparr>
     (CallExpression (Identifier ''__proto__'') [Literal (JStr ''x'')]
        \<lparr>position.line = 1, column = 0\<rparr>) [] = Inr []"
  by (simp add: run_defs)

text \<open>
  C1, amended: let the engine be built from a keywords object without the key
  \<open>__proto__\<close> in which a name is registered with the number 1, and with a comment
  prefix that is disabled or compiles to a regular expression. For every source text
  that parses (into a tree without empty sequence expressions) and contains exactly one
  call of a registered keyword, this one being a call of that name with a single
  argument that is a non-empty string literal, \<open>getMatches\<close> returns exactly one
  record; its \<open>string\<close> is the literal's value and its \<open>line\<close> is the line on which
  the call starts. The call is one whose callee is the name, a property access with
  that property name, or a sequence expression ending in one of these. The transforms'
  state is not touched.
\<close>

theorem C1_single_call_one_record:
  assumes config: "this = XGettext (Options kwopt cp)"
      "kws = (case kwopt of None \<Rightarrow> default_keywords | Some k \<Rightarrow> k)"
      "distinct (map fst kws)" "''__proto__'' \<notin> fst ` set kws"
      "map_of kws kw = Some (KNumber 1)"
    and prefix: "\<forall>prefix. commentPrefix (options this) = Some prefix \<longrightarrow>
                   (\<exists>rx. rxCommentMatch h prefix = Inr rx)"
    and parses: "parse h input = Inr (calls, tree)"
    and walk: "simple h tree = before @ [CallExpression callee0 [Literal (JStr str)] start] @ after"
    and tree: "\<forall>n\<in>set (simple h tree). well_formed n"
    and callee: "callee_name callee0 = Some kw" "kw \<noteq> []"
    and others: "\<forall>n\<in>set (before @ after). \<not> keyword_call (map fst kws) n"
    and nonempty: "str \<noteq> []"
  shows "\<exists>r. getMatches h this input s = (Inr [r], s) \<and>
             get_property r ''string'' = JStr str \<and>
             get_property r ''line'' = JNum (position.line start)"
proof -
  from parseInput_ast[OF parses prefix] obtain parsed where
    parsed: "parseInput h this input = Inr parsed" "ast parsed = tree" by blast
  have names: "set (keywordFunctions (options this)) = fst ` set kws"
    using config(4) by (simp add: config(1,2) XGettext_options(2))
  have registered: "kw \<in> set (keywordFunctions (options this))"
    using map_of_SomeD[OF config(5)] by (force simp add: names)
  have wf_callee: "well_formed callee0"
    using tree by (simp add: walk)
  define m where "m = \<lparr>arguments = [Literal (JStr str)], keyword = kw,
      line = position.line start,
      comment = (case filter (qualifying (position.line start)) (comments parsed) of
                   [] \<Rightarrow> None
                 | c # qs \<Rightarrow> Some (value (last (c # qs))))\<rparr>"
  have skip: "visit_nodes (CallExpression_visitor this parsed) ns ms = Inr ms"
    if "set ns \<subseteq> set (before @ after)" for ns ms
  proof (rule visit_nodes_skip)
    fix n st'
    assume "n \<in> set ns"
    with that have n: "n \<in> set (before @ after)" by blast
    then have "well_formed n" using tree by (auto simp add: walk)
    moreover have "\<not> keyword_call (map fst kws) n" using others n by blast
    ultimately show "CallExpression_visitor this parsed n st' = Inr st'"
      by (rule visitor_other) (simp add: names)
  qed
  have visit: "CallExpression_visitor this parsed
      (CallExpression callee0 [Literal (JStr str)] start) [] = Inr [m]"
    unfolding m_def
    by (simp only: visitor_keyword[OF wf_callee callee registered] append_Nil)
  have discovered: "discoverMatches h this parsed = Inr [m]"
    by (simp add: discoverMatches_def traverse_def parsed walk visit_nodes_append
        skip visit del: CallExpression_visitor.simps)
  have lookup: "map_of (keywords (options this)) (keyword m) = Some (KFunction (argument_transform 1))"
    using normalizeKeywords_lookup[OF config(3,5)]
    by (simp add: m_def config(1,2) XGettext_options(1))
  have call: "argument_transform 1 m s = (Inr (JStr str), s)"
    by (rule argument_transform_literal) (simp_all add: m_def)
  have "transformMatch this m s = (Inr (JArr [transformed m (JStr str)]), s)"
    by (simp add: transformMatch_def lookup call fromStrings_string nonempty)
  then have "getMatches h this input s = (Inr [transformed m (JStr str)], s)"
    by (simp add: getMatches_def parsed discovered)
  moreover have "match.line m = position.line start"
    by (simp add: m_def)
  ultimately show ?thesis
    by (simp add: transformed_properties)
qed

text \<open>The amended C1 on the first source of the test suite, \<open>_( "Hello World!" );\<close>,
  with the default options: the one record is \<open>{ string: "Hello World!", line: 1 }\<close>.\<close>

theorem C1_single_call_witness:
  "getMatches example_host (XGettext (Options None None)) src_hello () =
     (Inr [JObj [(''string'', JStr ''Hello World!''), (''line'', JNum 1)]], ())"
proof -
  let ?E = "XGettext (Options None None) :: unit engine"
  let ?call = "CallExpression (Identifier ''_'') [Literal (JStr ''Hello World!'')]
                 \<lparr>position.line = 1, column = 0\<rparr>"
  let ?before = "[Identifier ''_'', Literal (JStr ''Hello World!'')]"
  let ?after = "[OtherNode ''ExpressionStatement'' [?call], program [?call]]"
  have config: "?E = XGettext (Options None None)"
    "(default_keywords :: (string \<times> unit keyword) list) =
       (case None of None \<Rightarrow> default_keywords | Some k \<Rightarrow> k)"
    "distinct (map fst (default_keywords :: (string \<times> unit keyword) list))"
    "''__proto__'' \<notin> fst ` set (default_keywords :: (string \<times> unit keyword) list)"
    "map_of (default_keywords :: (string \<times> unit keyword) list) ''_'' = Some (KNumber 1)"
    by (simp_all add: default_keywords_def)
  have prefix: "\<forall>prefix. commentPrefix (options ?E) = Some prefix \<longrightarrow>
      (\<exists>rx. rxCommentMatch example_host prefix = Inr rx)"
    by (simp add: XGettext_options(3) default_commentPrefix_def rxCommentMatch_def example_defs)
  have parses: "parse example_host src_hello = Inr ([], program [?call])"
    by (simp add: example_defs)
  have walk: "simple example_host (program [?call]) = ?before @ [?call] @ ?after"
    by (simp add: example_defs)
  have tree: "\<forall>n\<in>set (simple example_host (program [?call])). well_formed n"
    by (simp add: example_defs)
  have callee: "callee_name (Identifier ''_'') = Some ''_''" "''_'' \<noteq> []"
    by simp_all
  have others: "\<forall>n\<in>set (?before @ ?after).
      \<not> keyword_call (map fst (default_keywords :: (string \<times> unit keyword) list)) n"
    by (simp add: program_def)
  have nonempty: "''Hello World!'' \<noteq> []" by simp
  from C1_single_call_one_record
    [OF config prefix parses walk tree callee others nonempty, of "()"]
  obtain r where r: "getMatches example_host ?E src_hello () = (Inr [r], ())" by blast
  have "getMatches example_host ?E src_hello () =
      (Inr [JObj [(''string'', JStr ''Hello World!''), (''line'', JNum 1)]], ())"
    by (simp add: run_defs example_defs)
  with r show ?thesis by simp
qed

section \<open>C2: the numeric keyword shorthand\<close>

text \<open>
  C2, as stated: for a keyword configured with a positive integer \<open>N\<close>, if the match has
  more than \<open>N - 1\<close> arguments and the \<open>N\<close>th one is a string literal, the synthesized
  transform returns the literal's value, yielding one record; otherwise it returns
  nothing and the match yields no record. The part "yielding one record" fails for the
  empty literal: with \<open>N = 1\<close> and the call \<open>_( "" )\<close> the argument list has more than
  \<open>0\<close> elements and the first argument is a string literal, the transform returns its
  value \<open>""\<close>, and \<open>_transformMatch\<close> returns the empty array, which flattens to no
  record.
\<close>

theorem C2_empty_literal_counterexample:
  "int (length (arguments \<lparr>arguments = [Literal (JStr [])], keyword = ''_'', line = 1,
                          comment = None\<rparr>)) > 1 - 1 \<and>
   argument_transform 1
     \<lparr>arguments = [Literal (JStr [])], keyword = ''_'', line = 1, comment = None\<rparr> () =
     (Inr (JStr []), ()) \<and>
   transformMatch (XGettext (Options (Some [(''_'', KNumber 1)]) None))
     \<lparr>arguments = [Literal (JStr [])], keyword = ''_'', line = 1, comment = None\<rparr> () =
     (Inr (JArr []), ()) \<and>
   flatten [JArr []] = []"
  by (simp add: run_defs)

text \<open>
  C2, amended: for a keyword configured with a positive integer \<open>N\<close> and every match
  for that keyword, the registered transform is the synthesized one; it returns the
  value of the \<open>N\<close>th argument when the match has at least \<open>N\<close> arguments and that one is
  a string literal, and undefined otherwise, leaving the state alone. The match yields
  one record (with that string) when the literal is not empty, and no record when the
  literal is empty, the argument is missing or it is not a string literal.
\<close>

theorem C2_numeric_keyword:
  assumes positive: "1 \<le> N"
    and config: "this = XGettext (Options kwopt cp)"
      "kws = (case kwopt of None \<Rightarrow> default_keywords | Some k \<Rightarrow> k)"
      "distinct (map fst kws)" "map_of kws kw = Some (KNumber N)"
    and m: "keyword m = kw"
  shows "map_of (keywords (options this)) kw = Some (KFunction (argument_transform N)) \<and>
         argument_transform N m s =
           (Inr (case nth_string_literal (nat N) (arguments m) of
                   Some v \<Rightarrow> JStr v | None \<Rightarrow> JUndefined), s) \<and>
         (\<exists>r. transformMatch this m s = (Inr r, s) \<and>
              flatten [r] =
                (case nth_string_literal (nat N) (arguments m) of
                   Some v \<Rightarrow> if v = [] then [] else [transformed m (JStr v)]
                 | None \<Rightarrow> []))"
proof -
  have lookup: "map_of (keywords (options this)) kw = Some (KFunction (argument_transform N))"
    using normalizeKeywords_lookup[OF config(3,4)]
    by (simp add: config(1,2) XGettext_options(1))
  have call: "argument_transform N m s =
      (Inr (case nth_string_literal (nat N) (arguments m) of
              Some v \<Rightarrow> JStr v | None \<Rightarrow> JUndefined), s)"
    by (rule argument_transform_nth[OF positive])
  have "transformMatch this m s =
      (Inr (fromStrings m (case nth_string_literal (nat N) (arguments m) of
                             Some v \<Rightarrow> JStr v | None \<Rightarrow> JUndefined)), s)"
    by (simp add: transformMatch_def m lookup call)
  moreover have "flatten [fromStrings m (case nth_string_literal (nat N) (arguments m) of
                             Some v \<Rightarrow> JStr v | None \<Rightarrow> JUndefined)] =
      (case nth_string_literal (nat N) (arguments m) of
         Some v \<Rightarrow> if v = [] then [] else [transformed m (JStr v)]
       | None \<Rightarrow> [])"
    by (simp add: fromStrings_def split: option.splits)
  ultimately show ?thesis using lookup call by simp
qed

text \<open>The amended C2 on the call \<open>_( null, "Hello World!" )\<close> of the test suite, with the
  keyword \<open>_\<close> configured as \<open>2\<close>.\<close>

theorem C2_numeric_keyword_witness:
  "map_of (keywords (options (XGettext (Options (Some [(''_'', KNumber 2)]) None) :: unit engine))) ''_'' =
     Some (KFunction (argument_transform 2)) \<and>
   argument_transform 2
     \<lparr>arguments = [Literal JNull, Literal (JStr ''Hello World!'')], keyword = ''_'',
      line = 1, comment = None\<rparr> () = (Inr (JStr ''Hello World!''), ()) \<and>
   (\<exists>r. transformMatch (XGettext (Options (Some [(''_'', KNumber 2)]) None))
          \<lparr>arguments = [Literal JNull, Literal (JStr ''Hello World!'')], keyword = ''_'',
           line = 1, comment = None\<rparr> () = (Inr r, ()) \<and>
        flatten [r] = [JObj [(''string'', JStr ''Hello World!''), (''line'', JNum 1)]])"
  using C2_numeric_keyword
    [where N = 2 and kwopt = "Some [(''_'', KNumber 2)]" and cp = None
       and this = "XGettext (Options (Some [(''_'', KNumber 2)]) None) :: unit engine"
       and kws = "[(''_'', KNumber 2)]" and kw = "''_''"
       and m = "\<lparr>arguments = [Literal JNull, Literal (JStr ''Hello World!'')], keyword = ''_'',
                 line = 1, comment = None\<rparr>"
       and s = "()"]
  by (simp add: nth_string_literal_def transformed_def)

section \<open>C3: which comment is attached to a match\<close>

text \<open>
  C3, as stated: for every matched call and every collected translator comment, the
  comment is attached to the match's \<open>comment\<close> field (prefix stripped, trimmed)
  exactly when its starting line is the call's start line or the line before; a comment
  two or more lines away, or one failing the prefix test, is never attached. The
  "exactly when" fails where two comments qualify: in
  \<open>/* translators: a */ _( "x" ); /* translators: b */\<close> both comments pass the prefix
  test and start on the call's line, and the match's \<open>comment\<close> is \<open>b\<close>: the first
  comment qualifies and is not attached.
\<close>

theorem C3_first_of_two_counterexample:
  "rxCommentMatch example_host ''translators:'' = Inr (literal_prefix ''translators:'') \<and>
   test (literal_prefix ''translators:'') '' translators: a '' \<and>
   parseInput example_host (XGettext (Options None None) :: unit engine) src_two_comments =
     Inr \<lparr>comments =
            [\<lparr>value = ''a'', translatorComment.line = \<lparr>position.line = 1, column = 0\<rparr>\<rparr>,
             \<lparr>value = ''b'', translatorComment.line = \<lparr>position.line = 1, column = 31\<rparr>\<rparr>],
          ast = program [CallExpression (Identifier ''_'') [Literal (JStr ''x'')]
                           \<lparr>position.line = 1, column = 21\<rparr>]\<rparr> \<and>
   CallExpression_visitor (XGettext (Options None None) :: unit engine)
     \<lparr>comments =
        [\<lparr>value = ''a'', translatorComment.line = \<lparr>position.line = 1, column = 0\<rparr>\<rparr>,
         \<lparr>value = ''b'', translatorComment.line = \<lparr>position.line = 1, column = 31\<rparr>\<rparr>],
      ast = program [CallExpression (Identifier ''_'') [Literal (JStr ''x'')]
                       \<lparr>position.line = 1, column = 21\<rparr>]\<rparr>
     (CallExpression (Identifier ''_'') [Literal (JStr ''x'')] \<lparr>position.line = 1, column = 21\<rparr>)
     [] =
     Inr [\<lparr>arguments = [Literal (JStr ''x'')], keyword = ''_'', line = 1, comment = Some ''b''\<rparr>] \<and>
   Some ''b'' \<noteq> Some ''a''"
  by (simp add: run_defs example_defs)

text \<open>
  C3, amended: with a comment prefix configured, the \<open>comment\<close> field of every match
  holds the text (prefix cut out, trimmed) of the last comment, in the order in which
  the parser reports them, that passes the prefix test and starts on the call's start
  line or on the line before; the field is absent when there is no such comment. So a
  comment is attached exactly when it is the last one that qualifies, and a comment
  two or more lines away, or one failing the prefix test, is never attached. The prefix
  test is the one of the regular expression built from the prefix.
\<close>

theorem C3_comment_association:
  assumes prefix: "commentPrefix (options this) = Some prefix"
    and parses: "parse h input = Inr (calls, tree)"
    and parsed: "parseInput h this input = Inr parsed"
    and visit: "CallExpression_visitor this parsed (CallExpression callee0 args start) ms =
                  Inr (ms @ [m])"
  shows "\<exists>rx. rxCommentMatch h prefix = Inr rx \<and>
          comment m =
           (case filter (\<lambda>c. test rx (text c) \<and>
                            (position.line (comment_call.line c) = position.line start \<or>
                             position.line (comment_call.line c) = position.line start - 1))
                   calls of
              [] \<Rightarrow> None
            | c # cs \<Rightarrow> Some (trim (replace_empty rx (text (last (c # cs))))))"
proof -
  from parseInput_comments[OF parsed parses prefix] obtain rx where
    rx: "rxCommentMatch h prefix = Inr rx"
    and cs: "comments parsed = map (collected rx) (filter (\<lambda>c. test rx (text c)) calls)"
    by auto
  let ?tested = "filter (\<lambda>c. test rx (text c)) calls"
  let ?near = "\<lambda>c. position.line (comment_call.line c) = position.line start \<or>
                     position.line (comment_call.line c) = position.line start - 1"
  have near: "qualifying (position.line start) \<circ> collected rx = ?near"
    by (rule ext) (simp add: qualifying_def collected_def)
  have filtered: "filter (qualifying (position.line start)) (comments parsed) =
      map (collected rx) (filter ?near ?tested)"
    by (simp add: cs filter_map near)
  have both: "filter ?near ?tested = filter (\<lambda>c. test rx (text c) \<and> ?near c) calls"
    by (simp add: conj_commute)
  from visitor_result[OF visit] obtain fname where
    m: "m = findTranslatorComment (position.line start) (comments parsed)
            \<lparr>arguments = args, keyword = fname, line = position.line start, comment = None\<rparr>"
    by blast
  have "comment m =
      (case filter (\<lambda>c. test rx (text c) \<and> ?near c) calls of
         [] \<Rightarrow> None
       | c # cs \<Rightarrow> Some (trim (replace_empty rx (text (last (c # cs))))))"
    unfolding m comment_findTranslatorComment filtered both
    by (simp add: last_map collected_def split: list.splits)
  with rx show ?thesis by blast
qed

text \<open>The amended C3 on the source with two comments: the adapter collects both, the
  visitor builds the match, and the second comment's text is attached.\<close>

theorem C3_comment_association_witness:
  "commentPrefix (options (XGettext (Options None None) :: unit engine)) = Some ''translators:'' \<and>
   parseInput example_host (XGettext (Options None None) :: unit engine) src_two_comments =
     Inr \<lparr>comments =
            [\<lparr>value = ''a'', translatorComment.line = \<lparr>position.line = 1, column = 0\<rparr>\<rparr>,
             \<lparr>value = ''b'', translatorComment.line = \<lparr>position.line = 1, column = 31\<rparr>\<rparr>],
          ast = program [CallExpression (Identifier ''_'') [Literal (JStr ''x'')]
                           \<lparr>position.line = 1, column = 21\<rparr>]\<rparr> \<and>
   CallExpression_visitor (XGettext (Options None None) :: unit engine)
     \<lparr>comments =
        [\<lparr>value = ''a'', translatorComment.line = \<lparr>position.line = 1, column = 0\<rparr>\<rparr>,
         \<lparr>value = ''b'', translatorComment.line = \<lparr>position.line = 1, column = 31\<rparr>\<rparr>],
      ast = program [CallExpression (Identifier ''_'') [Literal (JStr ''x'')]
                       \<lparr>position.line = 1, column = 21\<rparr>]\<rparr>
     (CallExpression (Identifier ''_'') [Literal (JStr ''x'')] \<lparr>position.line = 1, column = 21\<rparr>)
     [] =
     Inr [\<lparr>arguments = [Literal (JStr ''x'')], keyword = ''_'', line = 1, comment = Some ''b''\<rparr>] \<and>
   comment \<lparr>arguments = [Literal (JStr ''x'')], keyword = ''_'', line = 1, comment = Some ''b''\<rparr> =
     Some (trim (replace_empty (literal_prefix ''translators:'') '' translators: b ''))"
proof -
  let ?E = "XGettext (Options None None) :: unit engine"
  let ?calls = "[\<lparr>block = True, text = '' translators: a '',
                  comment_call.line = \<lparr>position.line = 1, column = 0\<rparr>\<rparr>,
                 \<lparr>block = True, text = '' translators: b '',
                  comment_call.line = \<lparr>position.line = 1, column = 31\<rparr>\<rparr>]"
  let ?call = "CallExpression (Identifier ''_'') [Literal (JStr ''x'')]
                 \<lparr>position.line = 1, column = 21\<rparr>"
  let ?parsed = "\<lparr>comments =
        [\<lparr>value = ''a'', translatorComment.line = \<lparr>position.line = 1, column = 0\<rparr>\<rparr>,
         \<lparr>value = ''b'', translatorComment.line = \<lparr>position.line = 1, column = 31\<rparr>\<rparr>],
      ast = program [?call]\<rparr>"
  let ?m = "\<lparr>arguments = [Literal (JStr ''x'')], keyword = ''_'', line = 1,
             comment = Some ''b''\<rparr>"
  have prefix: "commentPrefix (options ?E) = Some ''translators:''"
    by (simp add: XGettext_options(3) default_commentPrefix_def)
  have parses: "parse example_host src_two_comments = Inr (?calls, program [?call])"
    by (simp add: example_defs)
  have parsed: "parseInput example_host ?E src_two_comments = Inr ?parsed"
    by (simp add: run_defs example_defs)
  have visit: "CallExpression_visitor ?E ?parsed ?call [] = Inr ([] @ [?m])"
    by (simp add: run_defs)
  have rx: "rxCommentMatch example_host ''translators:'' = Inr (literal_prefix ''translators:'')"
    by (simp add: rxCommentMatch_def example_defs)
  have tested: "test (literal_prefix ''translators:'') '' translators: a ''"
    "test (literal_prefix ''translators:'') '' translators: b ''"
    by (simp_all add: run_defs example_defs)
  from C3_comment_association[OF prefix parses parsed visit] rx
  have "comment ?m =
      Some (trim (replace_empty (literal_prefix ''translators:'') '' translators: b ''))"
    using tested by simp
  then show ?thesis
    using prefix parsed visit by simp
qed

section \<open>C4: callees wrapped in sequence expressions\<close>

text \<open>
  C4: for every call expression whose callee is wrapped in one or more, arbitrarily
  nested, sequence expressions, discovery resolves the callee to the last expression of
  the innermost sequence, and the visitor does with the call exactly what it does with
  the direct call of that expression at the same place: the same match (keyword,
  arguments, line, comment), or none, or the same exception. When the wrapped
  expression stands for a registered name, the match is built, with that name as
  keyword, the call's arguments and start line, and the last qualifying comment.
\<close>

theorem C4_sequence_wrapping:
  "((\<forall>es. callee \<noteq> SequenceExpression es) \<longrightarrow>
      resolveCallee (wrap bs callee) = Inr callee) \<and>
   CallExpression_visitor this parsed (CallExpression (wrap bs callee) args start) ms =
     CallExpression_visitor this parsed (CallExpression callee args start) ms \<and>
   (well_formed callee \<and> callee_name callee = Some fname \<and> fname \<noteq> [] \<and>
    fname \<in> set (keywordFunctions (options this)) \<longrightarrow>
      CallExpression_visitor this parsed (CallExpression (wrap bs callee) args start) ms =
        Inr (ms @
          [\<lparr>arguments = args, keyword = fname, line = position.line start,
            comment = (case filter (qualifying (position.line start)) (comments parsed) of
                         [] \<Rightarrow> None
                       | c # qs \<Rightarrow> Some (value (last (c # qs))))\<rparr>]))"
proof (intro conjI impI)
  assume "\<forall>es. callee \<noteq> SequenceExpression es"
  then show "resolveCallee (wrap bs callee) = Inr callee"
    by (rule resolveCallee_wrap_plain)
next
  show same: "CallExpression_visitor this parsed (CallExpression (wrap bs callee) args start) ms =
      CallExpression_visitor this parsed (CallExpression callee args start) ms"
    by (simp add: resolveCallee_wrap)
  assume "well_formed callee \<and> callee_name callee = Some fname \<and> fname \<noteq> [] \<and>
      fname \<in> set (keywordFunctions (options this))"
  then show "CallExpression_visitor this parsed (CallExpression (wrap bs callee) args start) ms =
      Inr (ms @
        [\<lparr>arguments = args, keyword = fname, line = position.line start,
          comment = (case filter (qualifying (position.line start)) (comments parsed) of
                       [] \<Rightarrow> None
                     | c # qs \<Rightarrow> Some (value (last (c # qs))))\<rparr>])"
    unfolding same by (intro visitor_keyword) simp_all
qed

text \<open>C4 on \<open>(0, (0, i18n.translate))("Hello World!")\<close>, the shape of the test suite's
  source, with the keyword \<open>translate\<close> registered: the callee resolves to
  \<open>i18n.translate\<close> and the match is the one of \<open>i18n.translate("Hello World!")\<close>.\<close>

theorem C4_sequence_wrapping_witness:
  "resolveCallee
     (SequenceExpression
        [Literal (JNum 0),
         SequenceExpression
           [Literal (JNum 0),
            MemberExpression (Identifier ''i18n'') (Identifier ''translate'') False]]) =
     Inr (MemberExpression (Identifier ''i18n'') (Identifier ''translate'') False) \<and>
   CallExpression_visitor
     (XGettext (Options (Some [(''translate'', KNumber 1)]) None) :: unit engine)
     \<lparr>comments = [], ast = OtherNode ''Program'' []\<rparr>
     (CallExpression
        (SequenceExpression
           [Literal (JNum 0),
            SequenceExpression
              [Literal (JNum 0),
               MemberExpression (Identifier ''i18n'') (Identifier ''translate'') False]])
        [Literal (JStr ''Hello World!'')] \<lparr>position.line = 1, column = 0\<rparr>) [] =
   Inr [\<lparr>arguments = [Literal (JStr ''Hello World!'')], keyword = ''translate'', line = 1,
         comment = None\<rparr>]"
proof -
  let ?E = "XGettext (Options (Some [(''translate'', KNumber 1)]) None) :: unit engine"
  let ?P = "\<lparr>comments = [], ast = OtherNode ''Program'' []\<rparr>"
  let ?callee = "MemberExpression (Identifier ''i18n'') (Identifier ''translate'') False"
  let ?args = "[Literal (JStr ''Hello World!'')]"
  let ?start = "\<lparr>position.line = 1, column = 0\<rparr>"
  let ?bs = "[[Literal (JNum 0)], [Literal (JNum 0)]]"
  have wrapped: "wrap ?bs ?callee =
      SequenceExpression [Literal (JNum 0), SequenceExpression [Literal (JNum 0), ?callee]]"
    by simp
  have plain: "\<forall>es. ?callee \<noteq> SequenceExpression es" by simp
  have registered: "well_formed ?callee \<and> callee_name ?callee = Some ''translate'' \<and>
      ''translate'' \<noteq> [] \<and> ''translate'' \<in> set (keywordFunctions (options ?E))"
    by (simp add: XGettext_options(2))
  note C4 = C4_sequence_wrapping[of ?callee ?bs ?E ?P ?args ?start "[]" "''translate''"]
  from C4 plain have "resolveCallee (wrap ?bs ?callee) = Inr ?callee" by blast
  moreover from C4 registered
  have "CallExpression_visitor ?E ?P (CallExpression (wrap ?bs ?callee) ?args ?start) [] =
      Inr ([] @ [\<lparr>arguments = ?args, keyword = ''translate'', line = position.line ?start,
                   comment = (case filter (qualifying (position.line ?start)) (comments ?P) of
                                [] \<Rightarrow> None
                              | c # qs \<Rightarrow> Some (value (last (c # qs))))\<rparr>])"
    by blast
  ultimately show ?thesis
    unfolding wrapped by simp
qed

section \<open>C5: an object returned by a transform\<close>

text \<open>
  C5, as stated: for every match whose transform returns a structured object (not a
  string and not a list of strings), that object appears verbatim in the output, with
  the normalization skipped. The guard in \<open>_transformMatch\<close> is \<open>_.isPlainObject\<close>,
  which holds for plain objects only (an object literal is one). An instance of a class is a
  structured object, no string and no list, and is not passed through: with the
  transform \<open>function( match ) { return new Date( 0 ); }\<close> the output for
  \<open>_( "Hello World!" );\<close> is the record \<open>{ string: <the Date>, line: 1 }\<close>, not the
  Date.
\<close>

theorem C5_class_instance_counterexample:
  "\<not> isPlainObject (JInstance ''Date'') \<and>
   getMatches example_host
     (XGettext (Options (Some [(''_'', KFunction (\<lambda>m s. (Inr (JInstance ''Date''), s)))]) None))
     src_hello () =
     (Inr [JObj [(''string'', JInstance ''Date''), (''line'', JNum 1)]], ()) \<and>
   [JObj [(''string'', JInstance ''Date''), (''line'', JNum 1)]] \<noteq> [JInstance ''Date'']"
  by (simp add: run_defs example_defs)

text \<open>
  C5, amended: for every match whose transform returns a plain object (one that
  \<open>_.isPlainObject\<close> accepts, such as an object literal), \<open>_transformMatch\<close> returns
  that object as it is (no \<open>string\<close>, \<open>line\<close> or \<open>comment\<close> is built, nothing is
  filtered or wrapped in a list), and the object stands in the output of \<open>getMatches\<close>
  at the match's position: after the records of the matches before it and before those
  of the matches after it. Any other object goes the normalized way, as strings do.
\<close>

theorem C5_plain_object_verbatim:
  assumes parsed: "parseInput h this input = Inr parsed"
    and discovered: "discoverMatches h this parsed = Inr (ms1 @ [m] @ ms2)"
    and before: "map_transformMatch this ms1 s = (Inr r1, s1)"
    and lookup: "map_of (keywords (options this)) (keyword m) = Some (KFunction f)"
    and returns: "f m s1 = (Inr (JObj ps), s2)"
    and after: "map_transformMatch this ms2 s2 = (Inr r2, s3)"
  shows "transformMatch this m s1 = (Inr (JObj ps), s2) \<and>
         getMatches h this input s = (Inr (flatten r1 @ [JObj ps] @ flatten r2), s3)"
proof -
  have at: "transformMatch this m s1 = (Inr (JObj ps), s2)"
    using transformMatch_returns[OF lookup returns] by (simp add: fromStrings_def)
  show ?thesis
    using getMatches_around[OF parsed discovered before at after] at by simp
qed

text \<open>C5 on the test suite's transform \<open>function( match ) { return { isOkay: true }; }\<close>
  and the source \<open>_( "Hello World!" );\<close>.\<close>

theorem C5_plain_object_witness:
  "getMatches example_host
     (XGettext (Options (Some [(''_'', KFunction (\<lambda>m s. (Inr (JObj [(''isOkay'', JBool True)]), s)))])
                 None))
     src_hello () = (Inr [JObj [(''isOkay'', JBool True)]], ())"
proof -
  let ?f = "\<lambda>(m :: match) (s :: unit). (Inr (JObj [(''isOkay'', JBool True)]) :: error + jsval, s)"
  let ?E = "XGettext (Options (Some [(''_'', KFunction ?f)]) None)"
  let ?call = "CallExpression (Identifier ''_'') [Literal (JStr ''Hello World!'')]
                 \<lparr>position.line = 1, column = 0\<rparr>"
  let ?P = "\<lparr>comments = [], ast = program [?call]\<rparr>"
  let ?m = "\<lparr>arguments = [Literal (JStr ''Hello World!'')], keyword = ''_'', line = 1,
             comment = None\<rparr>"
  have parsed: "parseInput example_host ?E src_hello = Inr ?P"
    by (simp add: run_defs example_defs)
  have discovered: "discoverMatches example_host ?E ?P = Inr ([] @ [?m] @ [])"
    by (simp add: run_defs example_defs)
  have before: "map_transformMatch ?E [] () = (Inr [], ())" by simp
  have lookup: "map_of (keywords (options ?E)) (keyword ?m) = Some (KFunction ?f)"
    by (simp add: run_defs)
  have returns: "?f ?m () = (Inr (JObj [(''isOkay'', JBool True)]), ())" by simp
  show ?thesis
    using C5_plain_object_verbatim[OF parsed discovered before lookup returns before]
    by simp
qed

section \<open>C6: falsy strings are dropped\<close>

text \<open>
  C6: for every match whose transform returns a value that is not a plain object (a
  falsy value such as the empty string, \<open>false\<close> or undefined, a string, or a list),
  the records of the match are built from the value, or from the elements of the list,
  with every falsy one discarded; they stand in the output at the match's position.
  Every record so produced has a truthy, hence non-empty, \<open>string\<close>, and a transform
  that returns falsy values only contributes no record.
\<close>

theorem C6_falsy_filtering:
  assumes parsed: "parseInput h this input = Inr parsed"
    and discovered: "discoverMatches h this parsed = Inr (ms1 @ [m] @ ms2)"
    and before: "map_transformMatch this ms1 s = (Inr r1, s1)"
    and lookup: "map_of (keywords (options this)) (keyword m) = Some (KFunction f)"
    and returns: "f m s1 = (Inr v, s2)"
    and normalized: "\<not> isPlainObject v"
    and after: "map_transformMatch this ms2 s2 = (Inr r2, s3)"
  shows "\<exists>rs. rs = map (transformed m)
                    (filter Boolean (case v of JArr xs \<Rightarrow> xs | other \<Rightarrow> [v])) \<and>
              transformMatch this m s1 = (Inr (JArr rs), s2) \<and>
              getMatches h this input s = (Inr (flatten r1 @ rs @ flatten r2), s3) \<and>
              (\<forall>r\<in>set rs. Boolean (get_property r ''string'')) \<and>
              (only_falsy v \<longrightarrow> rs = [])"
proof -
  define rs where "rs = map (transformed m)
      (filter Boolean (case v of JArr xs \<Rightarrow> xs | other \<Rightarrow> [v]))"
  have at: "transformMatch this m s1 = (Inr (JArr rs), s2)"
    using transformMatch_returns[OF lookup returns] normalized
    by (simp add: fromStrings_def rs_def)
  have out: "getMatches h this input s = (Inr (flatten r1 @ rs @ flatten r2), s3)"
    using getMatches_around[OF parsed discovered before at after] by simp
  have truthy: "\<forall>r\<in>set rs. Boolean (get_property r ''string'')"
    unfolding rs_def using transformed_truthy by blast
  have none: "only_falsy v \<longrightarrow> rs = []"
    by (simp add: rs_def only_falsy_filter)
  show ?thesis
    using rs_def at out truthy none by blast
qed

text \<open>C6 on a transform returning \<open>[ "", "a", false, undefined ]\<close>, which gives the one
  record for \<open>"a"\<close>, and on a transform returning \<open>false\<close>, which gives none.\<close>

theorem C6_falsy_filtering_witness:
  "getMatches example_host
     (XGettext (Options (Some [(''_'', KFunction (\<lambda>m s.
         (Inr (JArr [JStr [], JStr ''a'', JBool False, JUndefined]), s)))]) None))
     src_hello () = (Inr [JObj [(''string'', JStr ''a''), (''line'', JNum 1)]], ()) \<and>
   getMatches example_host
     (XGettext (Options (Some [(''_'', KFunction (\<lambda>m s. (Inr (JBool False), s)))]) None))
     src_hello () = (Inr [], ())"
proof -
  let ?f = "\<lambda>(m :: match) (s :: unit).
      (Inr (JArr [JStr [], JStr ''a'', JBool False, JUndefined]) :: error + jsval, s)"
  let ?g = "\<lambda>(m :: match) (s :: unit). (Inr (JBool False) :: error + jsval, s)"
  let ?E = "XGettext (Options (Some [(''_'', KFunction ?f)]) None)"
  let ?F = "XGettext (Options (Some [(''_'', KFunction ?g)]) None)"
  let ?call = "CallExpression (Identifier ''_'') [Literal (JStr ''Hello World!'')]
                 \<lparr>position.line = 1, column = 0\<rparr>"
  let ?P = "\<lparr>comments = [], ast = program [?call]\<rparr>"
  let ?m = "\<lparr>arguments = [Literal (JStr ''Hello World!'')], keyword = ''_'', line = 1,
             comment = None\<rparr>"
  have parsedE: "parseInput example_host ?E src_hello = Inr ?P"
    by (simp add: run_defs example_defs)
  have parsedF: "parseInput example_host ?F src_hello = Inr ?P"
    by (simp add: run_defs example_defs)
  have discoveredE: "discoverMatches example_host ?E ?P = Inr ([] @ [?m] @ [])"
    by (simp add: run_defs example_defs)
  have discoveredF: "discoverMatches example_host ?F ?P = Inr ([] @ [?m] @ [])"
    by (simp add: run_defs example_defs)
  have noneE: "map_transformMatch ?E [] () = (Inr [], ())" by simp
  have noneF: "map_transformMatch ?F [] () = (Inr [], ())" by simp
  have lookupE: "map_of (keywords (options ?E)) (keyword ?m) = Some (KFunction ?f)"
    by (simp add: run_defs)
  have lookupF: "map_of (keywords (options ?F)) (keyword ?m) = Some (KFunction ?g)"
    by (simp add: run_defs)
  have returnsE: "?f ?m () = (Inr (JArr [JStr [], JStr ''a'', JBool False, JUndefined]), ())"
    by simp
  have returnsF: "?g ?m () = (Inr (JBool False), ())" by simp
  have first: "getMatches example_host ?E src_hello () =
      (Inr [JObj [(''string'', JStr ''a''), (''line'', JNum 1)]], ())"
    using C6_falsy_filtering[OF parsedE discoveredE noneE lookupE returnsE _ noneE]
    by (simp add: transformed_def)
  have falsy: "only_falsy (JBool False)" by (simp add: only_falsy_def)
  have second: "getMatches example_host ?F src_hello () = (Inr [], ())"
    using C6_falsy_filtering[OF parsedF discoveredF noneF lookupF returnsF _ noneF] falsy
    by simp
  show ?thesis using first second by simp
qed

section \<open>C7: what a match records\<close>

text \<open>
  C7, as stated: every match built by the discoverer records the call's start line and
  its start column, with the argument list and the resolved keyword name. The match
  object has the properties \<open>arguments\<close>, \<open>keyword\<close>, \<open>line\<close> and, when a comment
  qualifies, \<open>comment\<close>; the column is not recorded. The same call starting in column
  0 and in column 4 gives one and the same match, so the start column cannot be read
  off a match.
\<close>

theorem C7_column_counterexample:
  "CallExpression_visitor (XGettext (Options None None) :: unit engine)
     \<lparr>comments = [], ast = OtherNode ''Program'' []\<rparr>
     (CallExpression (Identifier ''_'') [Literal (JStr ''a'')] \<lparr>position.line = 1, column = 0\<rparr>) [] =
     Inr [\<lparr>arguments = [Literal (JStr ''a'')], keyword = ''_'', line = 1, comment = None\<rparr>] \<and>
   CallExpression_visitor (XGettext (Options None None) :: unit engine)
     \<lparr>comments = [], ast = OtherNode ''Program'' []\<rparr>
     (CallExpression (Identifier ''_'') [Literal (JStr ''a'')] \<lparr>position.line = 1, column = 4\<rparr>) [] =
     Inr [\<lparr>arguments = [Literal (JStr ''a'')], keyword = ''_'', line = 1, comment = None\<rparr>] \<and>
   column \<lparr>position.line = 1, column = 0\<rparr> \<noteq> column \<lparr>position.line = 1, column = 4\<rparr>"
  by (simp add: run_defs)

text \<open>
  C7, amended: every match built by the discoverer records the call's argument list,
  the name the callee resolves to, and the call's start line; it does not depend on the
  start column.
\<close>

theorem C7_match_fields:
  assumes "CallExpression_visitor this parsed (CallExpression callee0 args start) ms =
             Inr (ms @ [m])"
  shows "arguments m = args \<and> match.line m = position.line start \<and>
         (\<exists>callee. resolveCallee callee0 = Inr callee \<and> functionName callee = Some (keyword m)) \<and>
         (\<forall>col. CallExpression_visitor this parsed
                  (CallExpression callee0 args (start\<lparr>column := col\<rparr>)) ms = Inr (ms @ [m]))"
proof -
  from visitor_result[OF assms] obtain fname callee where
    m: "m = findTranslatorComment (position.line start) (comments parsed)
            \<lparr>arguments = args, keyword = fname, line = position.line start, comment = None\<rparr>"
    and reg: "fname \<in> set (keywordFunctions (options this))" "fname \<noteq> []"
    and callee: "resolveCallee callee0 = Inr callee" "functionName callee = Some fname"
    by blast
  have "CallExpression_visitor this parsed
      (CallExpression callee0 args (start\<lparr>column := col\<rparr>)) ms = Inr (ms @ [m])" for col
    unfolding m using visitor_registered[OF callee reg(2,1), of parsed args "start\<lparr>column := col\<rparr>" ms]
    by simp
  then show ?thesis
    using callee by (simp add: m findTranslatorComment_fields)
qed

text \<open>The amended C7 on the call \<open>_( "a" )\<close> on line 1: moved to column 7, it gives the
  same match.\<close>

theorem C7_match_fields_witness:
  "arguments \<lparr>arguments = [Literal (JStr ''a'')], keyword = ''_'', line = 1, comment = None\<rparr> =
     [Literal (JStr ''a'')] \<and>
   match.line \<lparr>arguments = [Literal (JStr ''a'')], keyword = ''_'', line = 1, comment = None\<rparr> =
     position.line \<lparr>position.line = 1, column = 0\<rparr> \<and>
   CallExpression_visitor (XGettext (Options None None) :: unit engine)
     \<lparr>comments = [], ast = OtherNode ''Program'' []\<rparr>
     (CallExpression (Identifier ''_'') [Literal (JStr ''a'')] \<lparr>position.line = 1, column = 7\<rparr>) [] =
   Inr [\<lparr>arguments = [Literal (JStr ''a'')], keyword = ''_'', line = 1, comment = None\<rparr>]"
proof -
  let ?E = "XGettext (Options None None) :: unit engine"
  let ?P = "\<lparr>comments = [], ast = OtherNode ''Program'' []\<rparr>"
  let ?m = "\<lparr>arguments = [Literal (JStr ''a'')], keyword = ''_'', line = 1, comment = None\<rparr>"
  have visit: "CallExpression_visitor ?E ?P
      (CallExpression (Identifier ''_'') [Literal (JStr ''a'')] \<lparr>position.line = 1, column = 0\<rparr>) [] =
      Inr ([] @ [?m])"
    by (simp add: run_defs)
  have "\<forall>col. CallExpression_visitor ?E ?P
      (CallExpression (Identifier ''_'') [Literal (JStr ''a'')]
         (\<lparr>position.line = 1, column = 0\<rparr>\<lparr>column := col\<rparr>)) [] = Inr ([] @ [?m])"
    using C7_match_fields[OF visit] by blast
  then have "CallExpression_visitor ?E ?P
      (CallExpression (Identifier ''_'') [Literal (JStr ''a'')]
         (\<lparr>position.line = 1, column = 0\<rparr>\<lparr>column := 7\<rparr>)) [] = Inr ([] @ [?m])"
    by (rule spec)
  then show ?thesis by simp
qed

section \<open>C8: the last qualifying comment wins\<close>

text \<open>
  C8: for every matched call (a call, in a tree without empty sequence expressions,
  whose callee stands for a registered name) with two or more qualifying translator
  comments (on the call's start line or on the line before), the visitor builds a
  match, and the comment attached to it is the last qualifying one in the order of the
  collected comments, whatever their lines are.
\<close>

theorem C8_last_qualifying_comment:
  assumes callee: "well_formed callee0" "callee_name callee0 = Some fname" "fname \<noteq> []"
      "fname \<in> set (keywordFunctions (options this))"
    and qs: "qs = filter (qualifying (position.line start)) (comments parsed)"
    and two: "2 \<le> length qs"
  shows "\<exists>m. CallExpression_visitor this parsed (CallExpression callee0 args start) ms =
               Inr (ms @ [m]) \<and>
             keyword m = fname \<and> comment m = Some (value (last qs))"
proof -
  from two obtain c cs where "qs = c # cs" by (cases qs) simp_all
  then show ?thesis
    unfolding visitor_keyword[OF callee] using qs by (simp split: list.splits)
qed

text \<open>C8 on a call of the default keyword on line 2 with collected comments on lines 1,
  2, 2 and 3: three of them qualify, and the visitor attaches the last of the three.\<close>

theorem C8_last_qualifying_comment_witness:
  "2 \<le> length (filter (qualifying 2)
           [\<lparr>value = ''above'', translatorComment.line = \<lparr>position.line = 1, column = 0\<rparr>\<rparr>,
            \<lparr>value = ''left'', translatorComment.line = \<lparr>position.line = 2, column = 0\<rparr>\<rparr>,
            \<lparr>value = ''right'', translatorComment.line = \<lparr>position.line = 2, column = 30\<rparr>\<rparr>,
            \<lparr>value = ''below'', translatorComment.line = \<lparr>position.line = 3, column = 0\<rparr>\<rparr>]) \<and>
   CallExpression_visitor (XGettext (Options None None) :: unit engine)
     \<lparr>comments =
        [\<lparr>value = ''above'', translatorComment.line = \<lparr>position.line = 1, column = 0\<rparr>\<rparr>,
         \<lparr>value = ''left'', translatorComment.line = \<lparr>position.line = 2, column = 0\<rparr>\<rparr>,
         \<lparr>value = ''right'', translatorComment.line = \<lparr>position.line = 2, column = 30\<rparr>\<rparr>,
         \<lparr>value = ''below'', translatorComment.line = \<lparr>position.line = 3, column = 0\<rparr>\<rparr>],
      ast = OtherNode ''Program'' []\<rparr>
     (CallExpression (Identifier ''_'') [Literal (JStr ''x'')] \<lparr>position.line = 2, column = 20\<rparr>)
     [] =
   Inr [\<lparr>arguments = [Literal (JStr ''x'')], keyword = ''_'', line = 2,
         comment = Some ''right''\<rparr>]"
proof -
  let ?E = "XGettext (Options None None) :: unit engine"
  let ?cs = "[\<lparr>value = ''above'', translatorComment.line = \<lparr>position.line = 1, column = 0\<rparr>\<rparr>,
            \<lparr>value = ''left'', translatorComment.line = \<lparr>position.line = 2, column = 0\<rparr>\<rparr>,
            \<lparr>value = ''right'', translatorComment.line = \<lparr>position.line = 2, column = 30\<rparr>\<rparr>,
            \<lparr>value = ''below'', translatorComment.line = \<lparr>position.line = 3, column = 0\<rparr>\<rparr>]"
  let ?P = "\<lparr>comments = ?cs, ast = OtherNode ''Program'' []\<rparr>"
  let ?start = "\<lparr>position.line = 2, column = 20\<rparr>"
  let ?call = "CallExpression (Identifier ''_'') [Literal (JStr ''x'')] ?start"
  have callee: "well_formed (Identifier ''_'')" "callee_name (Identifier ''_'') = Some ''_''"
    "''_'' \<noteq> []" "''_'' \<in> set (keywordFunctions (options ?E))"
    by (simp_all add: XGettext_options(2) default_keywords_def)
  have qs: "filter (qualifying 2) ?cs = filter (qualifying (position.line ?start)) (comments ?P)"
    by simp
  have two: "2 \<le> length (filter (qualifying 2) ?cs)"
    by (simp add: qualifying_def)
  have last: "value (last (filter (qualifying 2) ?cs)) = ''right''"
    by (simp add: qualifying_def)
  from C8_last_qualifying_comment[OF callee qs two, of "[Literal (JStr ''x'')]" "[]"]
  obtain m where m: "CallExpression_visitor ?E ?P ?call [] = Inr ([] @ [m])"
    "keyword m = ''_''" "comment m = Some ''right''"
    unfolding last by blast
  have "CallExpression_visitor ?E ?P ?call [] =
      Inr [\<lparr>arguments = [Literal (JStr ''x'')], keyword = ''_'', line = 2,
            comment = Some ''right''\<rparr>]"
    by (simp add: run_defs)
  with m two show ?thesis by simp
qed

section \<open>C9: repeated invocations\<close>




section \<open>C10: computed member access\<close>

text \<open>
  C10: a call whose callee is a computed member access with a property that is not an
  identifier, as in \<open>obj["fn"]()\<close>, produces no match, also when the property is a
  string literal whose value is a registered keyword: the name is read from the
  property node's \<open>name\<close>, which only an identifier has.
\<close>

theorem C10_computed_member_no_match:
  assumes "\<forall>n. p \<noteq> Identifier n"
  shows "CallExpression_visitor this parsed
           (CallExpression (MemberExpression obj p True) args start) ms = Inr ms"
proof -
  have "name_of p = None" using assms by (cases p) simp_all
  then show ?thesis by (simp add: functionName_def)
qed

text \<open>C10 on \<open>obj["_"]("x")\<close> with the default keyword \<open>_\<close> registered.\<close>

theorem C10_computed_member_witness:
  "''_'' \<in> set (keywordFunctions (options (XGettext (Options None None) :: unit engine))) \<and>
   CallExpression_visitor (XGettext (Options None None) :: unit engine)
     \<lparr>comments = [], ast = OtherNode ''Program'' []\<rparr>
     (CallExpression (MemberExpression (Identifier ''obj'') (Literal (JStr ''_'')) True)
        [Literal (JStr ''x'')] \<lparr>position.line = 1, column = 0\<rparr>) [] = Inr []"
proof -
  have "\<forall>n. Literal (JStr ''_'') \<noteq> Identifier n" by simp
  from C10_computed_member_no_match[OF this]
  show ?thesis by (simp add: XGettext_options(2) default_keywords_def)
qed

end
